theory Spec2Isabelle
  imports Complex_Main
begin

section \<open>Values\<close>

text \<open>
  The item record is whatever \<^verbatim>\<open>json.loads\<close> returns: a Python value built from
  \<^verbatim>\<open>None\<close>, booleans, integers, floats, strings, lists and dicts. A dict is an
  association list in insertion order; its keys are distinct, as in a Python dict, and
  a lookup reads the entry of the key. A float is a real number (the values NaN and
  Infinity, which \<^verbatim>\<open>json.loads\<close> accepts too, are left out); only its being zero or
  not matters to the program. Strings are lists of ASCII characters.
\<close>

datatype json =
    JNull
  | JBool bool
  | JInt int
  | JFloat real
  | JStr string
  | JList "json list"
  | JObj "(string \<times> json) list"

text \<open>The exceptions the program can meet, each with the text Python attaches to it.\<close>

datatype error =
    HTTPError nat string
  | URLError string
  | JSONDecodeError string
  | UnicodeDecodeError string
  | ValueError string
  | AttributeError string
  | TypeError string
  | OSError string

subsection \<open>Decimal numerals, \<^verbatim>\<open>str\<close> and \<^verbatim>\<open>zfill\<close>\<close>

definition digit_char :: "nat \<Rightarrow> char" where
  "digit_char d = ''0123456789'' ! d"

function str_nat :: "nat \<Rightarrow> string" where
  "str_nat n = (if n < 10 then [digit_char n] else str_nat (n div 10) @ [digit_char (n mod 10)])"
  by pat_completeness auto
termination
  by (relation "measure id") auto

declare str_nat.simps [simp del]

definition str_int :: "int \<Rightarrow> string" where
  "str_int i = (if i < 0 then CHR ''-'' # str_nat (nat (- i)) else str_nat (nat i))"

text \<open>
  \<^verbatim>\<open>str.zfill(width)\<close>: a string already \<open>width\<close> long or longer is returned as it
  is; otherwise zeros are put on the left, after a leading sign if there is one.
\<close>

definition zfill :: "nat \<Rightarrow> string \<Rightarrow> string" where
  "zfill width s =
     (if width \<le> length s then s
      else (let fill = replicate (width - length s) CHR ''0'' in
            case s of
              [] \<Rightarrow> fill
            | c # rest \<Rightarrow> if c = CHR ''+'' \<or> c = CHR ''-'' then c # fill @ rest else fill @ s))"

text \<open>\<^verbatim>\<open>str.strip()\<close> removes the white space at both ends.\<close>

definition is_space :: "char \<Rightarrow> bool" where
  "is_space c = (c \<in> set [CHR '' '', CHR 0x09, CHR 0x0A, CHR 0x0B, CHR 0x0C, CHR 0x0D,
                          CHR 0x1C, CHR 0x1D, CHR 0x1E, CHR 0x1F])"

definition strip :: "string \<Rightarrow> string" where
  "strip s = rev (dropWhile is_space (rev (dropWhile is_space s)))"

subsection \<open>Truth values, types and dict access\<close>

fun truthy :: "json \<Rightarrow> bool" where
  "truthy JNull = False"
| "truthy (JBool b) = b"
| "truthy (JInt i) = (i \<noteq> 0)"
| "truthy (JFloat r) = (r \<noteq> 0)"
| "truthy (JStr s) = (s \<noteq> [])"
| "truthy (JList xs) = (xs \<noteq> [])"
| "truthy (JObj kvs) = (kvs \<noteq> [])"

fun type_name :: "json \<Rightarrow> string" where
  "type_name JNull = ''NoneType''"
| "type_name (JBool b) = ''bool''"
| "type_name (JInt i) = ''int''"
| "type_name (JFloat r) = ''float''"
| "type_name (JStr s) = ''str''"
| "type_name (JList xs) = ''list''"
| "type_name (JObj kvs) = ''dict''"

text \<open>\<^verbatim>\<open>d.get(k)\<close> on a dict: the value of the key, \<^verbatim>\<open>None\<close> when it is absent.\<close>

definition get :: "(string \<times> json) list \<Rightarrow> string \<Rightarrow> json" where
  "get kvs k = (case map_of kvs k of None \<Rightarrow> JNull | Some v \<Rightarrow> v)"

text \<open>Python shows a name in error messages between single quotes.\<close>

definition quoted :: "string \<Rightarrow> string" where
  "quoted s = CHR 0x27 # s @ [CHR 0x27]"

text \<open>\<^verbatim>\<open>v.get(k)\<close> on any value: only a dict has the method.\<close>

fun py_get :: "json \<Rightarrow> string \<Rightarrow> error + json" where
  "py_get (JObj kvs) k = Inr (get kvs k)"
| "py_get v k = Inl (AttributeError (quoted (type_name v) @ '' object has no attribute '' @ quoted ''get''))"

text \<open>What a \<^verbatim>\<open>for\<close> over the value visits: a dict gives its keys, a string its characters.\<close>

fun iter_items :: "json \<Rightarrow> error + json list" where
  "iter_items (JList xs) = Inr xs"
| "iter_items (JObj kvs) = Inr (map (\<lambda>kv. JStr (fst kv)) kvs)"
| "iter_items (JStr s) = Inr (map (\<lambda>c. JStr [c]) s)"
| "iter_items v = Inl (TypeError (quoted (type_name v) @ '' object is not iterable''))"

section \<open>The world the program runs in\<close>

text \<open>
  What the program reads and changes: the file system (the paths that exist, and the
  bytes of each file), the two output streams (one entry for each \<^verbatim>\<open>print\<close>), the
  URLs handed to \<^verbatim>\<open>urlopen\<close> so far, and the calls of \<^verbatim>\<open>download_image\<close> so far
  (URL and destination of each).
\<close>

datatype node = File string | Dir

record world =
  fs :: "string \<rightharpoonup> node"
  stdout :: "string list"
  stderr :: "string list"
  requests :: "string list"
  invocations :: "(string \<times> string) list"

text \<open>
  What the program does not decide: the answer of the server, the decoding of a body,
  and the outcome of the file system calls. An answer is the response \<^verbatim>\<open>urlopen\<close>
  ends with (after it followed redirects), with the outcome of reading its body, or no
  response at all.
\<close>

datatype read_result = Body string | ReadRaises string

datatype reply = Unreachable string | Response nat string read_result

datatype decoded = Json json | NotUtf8 string | NotJson string

record env =
  net :: "nat \<Rightarrow> string \<Rightarrow> reply"
    \<comment> \<open>the answer to the request made after that many earlier ones, for that URL\<close>
  loads :: "string \<Rightarrow> decoded"
    \<comment> \<open>\<^verbatim>\<open>json.loads(body.decode('utf-8'))\<close>\<close>
  open_wb :: "string \<Rightarrow> string option"
    \<comment> \<open>\<^verbatim>\<open>open(path, 'wb')\<close>: the message of the error it raises, if it raises\<close>
  write_out :: "string \<Rightarrow> string \<Rightarrow> (nat \<times> string) option"
    \<comment> \<open>writing the bytes to the open file: how many reached it and the message, if it raises\<close>
  mkdir :: "string \<Rightarrow> string option"
    \<comment> \<open>\<^verbatim>\<open>Path.mkdir(parents=True, exist_ok=True)\<close>: the traceback, if it raises\<close>
  path_str :: "string \<Rightarrow> string"
    \<comment> \<open>\<^verbatim>\<open>str(pathlib.Path(s))\<close>\<close>
  repr_other :: "json \<Rightarrow> string"
    \<comment> \<open>\<^verbatim>\<open>str\<close> of a float, a list or a dict\<close>

definition print_out :: "string \<Rightarrow> world \<Rightarrow> world" where
  "print_out s w = w\<lparr>stdout := stdout w @ [s]\<rparr>"

definition print_err :: "string \<Rightarrow> world \<Rightarrow> world" where
  "print_err s w = w\<lparr>stderr := stderr w @ [s]\<rparr>"

text \<open>\<^verbatim>\<open>str(v)\<close>, which is also what an f-string puts for \<open>v\<close>.\<close>

fun py_str :: "env \<Rightarrow> json \<Rightarrow> string" where
  "py_str E JNull = ''None''"
| "py_str E (JBool b) = (if b then ''True'' else ''False'')"
| "py_str E (JInt i) = str_int i"
| "py_str E (JStr s) = s"
| "py_str E v = repr_other E v"

text \<open>\<^verbatim>\<open>str(e)\<close> of an exception.\<close>

fun err_str :: "error \<Rightarrow> string" where
  "err_str (HTTPError code reason) = ''HTTP Error '' @ str_nat code @ '': '' @ reason"
| "err_str (URLError reason) = ''<urlopen error '' @ reason @ ''>''"
| "err_str (JSONDecodeError m) = m"
| "err_str (UnicodeDecodeError m) = m"
| "err_str (ValueError m) = m"
| "err_str (AttributeError m) = m"
| "err_str (TypeError m) = m"
| "err_str (OSError m) = m"

text \<open>
  \<^verbatim>\<open>urlopen(url)\<close>: the request is made; no answer raises \<^verbatim>\<open>URLError\<close>, an answer
  with a status outside 200..299 raises \<^verbatim>\<open>HTTPError\<close>, any other is returned.
\<close>

definition urlopen :: "env \<Rightarrow> string \<Rightarrow> world \<Rightarrow> (error + read_result) \<times> world" where
  "urlopen E url w =
     (let w' = w\<lparr>requests := requests w @ [url]\<rparr> in
      case net E (length (requests w)) url of
        Unreachable reason \<Rightarrow> (Inl (URLError reason), w')
      | Response code reason rd \<Rightarrow>
          if 200 \<le> code \<and> code < 300 then (Inr rd, w') else (Inl (HTTPError code reason), w'))"

section \<open>The program\<close>

subsection \<open>\<^verbatim>\<open>fetch_parent_data\<close> (lines 15 to 44 of \<^verbatim>\<open>fetch_images.py\<close>)\<close>

definition api_url :: "string \<Rightarrow> string" where
  "api_url pid = ''https://repository.library.brown.edu/api/items/'' @ pid @ ''/''"

text \<open>The three \<^verbatim>\<open>except\<close> clauses: each prints its line; any other exception passes by.\<close>

fun fetch_handler :: "error \<Rightarrow> world \<Rightarrow> world" where
  "fetch_handler (HTTPError code reason) w =
     print_err (''HTTP Error '' @ str_nat code @ '': '' @ reason) w"
| "fetch_handler (URLError reason) w = print_err (''URL Error: '' @ reason) w"
| "fetch_handler (JSONDecodeError m) w = print_err (''JSON Decode Error: '' @ m) w"
| "fetch_handler e w = w"

definition fetch_body :: "env \<Rightarrow> string \<Rightarrow> world \<Rightarrow> (error + json) \<times> world" where
  "fetch_body E url w =
     (case urlopen E url w of
        (Inl e, w1) \<Rightarrow> (Inl e, w1)
      | (Inr rd, w1) \<Rightarrow>
          (case rd of
             ReadRaises m \<Rightarrow> (Inl (OSError m), w1)
           | Body b \<Rightarrow>
               (case loads E b of
                  NotUtf8 m \<Rightarrow> (Inl (UnicodeDecodeError m), w1)
                | NotJson m \<Rightarrow> (Inl (JSONDecodeError m), w1)
                | Json data \<Rightarrow> (Inr data, w1))))"

definition fetch_parent_data :: "env \<Rightarrow> string \<Rightarrow> world \<Rightarrow> (error + json) \<times> world" where
  "fetch_parent_data E pid w =
     (case fetch_body E (api_url pid) w of
        (Inl e, w1) \<Rightarrow> (Inl e, fetch_handler e w1)
      | (Inr data, w1) \<Rightarrow> (Inr data, w1))"

subsection \<open>\<^verbatim>\<open>get_child_pids\<close> (lines 46 to 66)\<close>

text \<open>
  The condition of the list comprehension, \<^verbatim>\<open>child.get('pid') and child.get('order')
  is not None\<close>: the second operand is evaluated only when the first is truthy.
\<close>

definition child_test :: "json \<Rightarrow> error + bool" where
  "child_test child =
     (case py_get child ''pid'' of
        Inl e \<Rightarrow> Inl e
      | Inr p \<Rightarrow>
          if truthy p
          then (case py_get child ''order'' of Inl e \<Rightarrow> Inl e | Inr ord \<Rightarrow> Inr (ord \<noteq> JNull))
          else Inr False)"

text \<open>The element of the comprehension, \<^verbatim>\<open>(child.get('pid'), child.get('order'))\<close>.\<close>

definition child_pair :: "json \<Rightarrow> error + (json \<times> json)" where
  "child_pair child =
     (case py_get child ''pid'' of
        Inl e \<Rightarrow> Inl e
      | Inr p \<Rightarrow> (case py_get child ''order'' of Inl e \<Rightarrow> Inl e | Inr ord \<Rightarrow> Inr (p, ord)))"

fun comprehension :: "json list \<Rightarrow> error + (json \<times> json) list" where
  "comprehension [] = Inr []"
| "comprehension (child # rest) =
     (case child_test child of
        Inl e \<Rightarrow> Inl e
      | Inr False \<Rightarrow> comprehension rest
      | Inr True \<Rightarrow>
          (case child_pair child of
             Inl e \<Rightarrow> Inl e
           | Inr pr \<Rightarrow> (case comprehension rest of Inl e \<Rightarrow> Inl e | Inr prs \<Rightarrow> Inr (pr # prs))))"

definition found_notice :: "nat \<Rightarrow> string" where
  "found_notice n = ''Found '' @ str_nat n @ '' child PIDs.''"

definition get_child_pids :: "json \<Rightarrow> world \<Rightarrow> (error + (json \<times> json) list) \<times> world" where
  "get_child_pids parent_data w =
     (case py_get parent_data ''relations'' of
        Inl e \<Rightarrow> (Inl e, w)
      | Inr relations \<Rightarrow>
          if \<not> truthy relations then (Inl (ValueError ''No relations found in parent data.''), w)
          else
            (case py_get relations ''hasPart'' of
               Inl e \<Rightarrow> (Inl e, w)
             | Inr children \<Rightarrow>
                 if \<not> truthy children then (Inl (ValueError ''No child items found in parent data.''), w)
                 else
                   (case iter_items children of
                      Inl e \<Rightarrow> (Inl e, w)
                    | Inr items \<Rightarrow>
                        (case comprehension items of
                           Inl e \<Rightarrow> (Inl e, w)
                         | Inr child_pids_and_pages \<Rightarrow>
                             if child_pids_and_pages = [] \<or> length child_pids_and_pages = 0
                             then (Inl (ValueError ''No valid child PIDs found.''), w)
                             else (Inr child_pids_and_pages,
                                   print_out (found_notice (length child_pids_and_pages)) w)))))"

subsection \<open>\<^verbatim>\<open>download_image\<close> (lines 68 to 88)\<close>

definition skip_notice :: "string \<Rightarrow> string" where
  "skip_notice output_path = ''Image already exists at '' @ output_path @ '', skipping download.''"

text \<open>
  The \<^verbatim>\<open>try\<close> block: the request first, then \<^verbatim>\<open>open(output_path, 'wb')\<close>, which
  creates the file or empties it, then the read of the body, then the write.
\<close>

definition download_body :: "env \<Rightarrow> string \<Rightarrow> string \<Rightarrow> world \<Rightarrow> (error + unit) \<times> world" where
  "download_body E image_url output_path w =
     (case urlopen E image_url w of
        (Inl e, w1) \<Rightarrow> (Inl e, w1)
      | (Inr rd, w1) \<Rightarrow>
          (case open_wb E output_path of
             Some m \<Rightarrow> (Inl (OSError m), w1)
           | None \<Rightarrow>
               (let w2 = w1\<lparr>fs := (fs w1)(output_path \<mapsto> File [])\<rparr> in
                case rd of
                  ReadRaises m \<Rightarrow> (Inl (OSError m), w2)
                | Body b \<Rightarrow>
                    (case write_out E output_path b of
                       Some (k, m) \<Rightarrow>
                         (Inl (OSError m), w2\<lparr>fs := (fs w2)(output_path \<mapsto> File (take k b))\<rparr>)
                     | None \<Rightarrow> (Inr (), w2\<lparr>fs := (fs w2)(output_path \<mapsto> File b)\<rparr>)))))"

definition download_image :: "env \<Rightarrow> string \<Rightarrow> string \<Rightarrow> world \<Rightarrow> (error + unit) \<times> world" where
  "download_image E image_url output_path w0 =
     (let w = w0\<lparr>invocations := invocations w0 @ [(image_url, output_path)]\<rparr> in
      if fs w output_path \<noteq> None then (Inr (), print_out (skip_notice output_path) w)
      else
        (case download_body E image_url output_path w of
           (Inl e, w1) \<Rightarrow>
             (Inl e, print_err (''Failed to download image from '' @ image_url @ '': '' @ err_str e) w1)
         | (Inr u, w1) \<Rightarrow> (Inr (), w1)))"

subsection \<open>\<^verbatim>\<open>download_images_for_children\<close> (lines 90 to 108)\<close>

text \<open>
  The loop over \<^verbatim>\<open>tqdm(child_pids)\<close> visits the pairs in order. The progress bar is
  drawn by the library, not by a \<^verbatim>\<open>print\<close> of the program, and is not recorded.
\<close>

definition image_url_of :: "env \<Rightarrow> json \<Rightarrow> string" where
  "image_url_of E pid =
     ''https://repository.library.brown.edu/iiif/image/'' @ py_str E pid @ ''/full/!800,800/0/default.jpg''"

definition output_path_of :: "env \<Rightarrow> string \<Rightarrow> json \<Rightarrow> string" where
  "output_path_of E output_dir page = output_dir @ ''/'' @ zfill 4 (py_str E page) @ ''.jpg''"

fun download_images_for_children ::
  "env \<Rightarrow> (json \<times> json) list \<Rightarrow> string \<Rightarrow> world \<Rightarrow> (error + unit) \<times> world" where
  "download_images_for_children E [] output_dir w = (Inr (), w)"
| "download_images_for_children E ((pid, page) # rest) output_dir w =
     (case download_image E (image_url_of E pid) (output_path_of E output_dir page) w of
        (Inl e, w1) \<Rightarrow>
          (Inl e, print_err (''Error processing PID '' @ py_str E pid @ '': '' @ err_str e) w1)
      | (Inr u, w1) \<Rightarrow> download_images_for_children E rest output_dir w1)"

subsection \<open>\<^verbatim>\<open>main\<close> (lines 110 to 145)\<close>

text \<open>The body of the \<^verbatim>\<open>try\<close> block of \<^verbatim>\<open>main\<close>.\<close>

definition pipeline :: "env \<Rightarrow> string \<Rightarrow> string \<Rightarrow> world \<Rightarrow> (error + unit) \<times> world" where
  "pipeline E pid output_dir w =
     (case fetch_parent_data E pid w of
        (Inl e, w1) \<Rightarrow> (Inl e, w1)
      | (Inr data, w1) \<Rightarrow>
          (case get_child_pids data w1 of
             (Inl e, w2) \<Rightarrow> (Inl e, w2)
           | (Inr child_pids, w2) \<Rightarrow> download_images_for_children E child_pids output_dir w2))"

text \<open>
  \<^verbatim>\<open>main\<close> after the arguments are parsed; the result is the exit code. The directory
  is made outside the \<^verbatim>\<open>try\<close> block: an error there ends the process with Python's
  traceback and exit code 1. Of the directories \<^verbatim>\<open>mkdir\<close> makes only the output
  directory is recorded (an existing one is left as it is); the paths the program tests
  lie below it.
\<close>

definition make_dir :: "string \<Rightarrow> world \<Rightarrow> world" where
  "make_dir output_dir w =
     (if fs w output_dir = None then w\<lparr>fs := (fs w)(output_dir \<mapsto> Dir)\<rparr> else w)"

definition main :: "env \<Rightarrow> string \<Rightarrow> string \<Rightarrow> world \<Rightarrow> nat \<times> world" where
  "main E pid output w =
     (if strip pid = [] then (1, print_err ''Error: PID cannot be empty.'' w)
      else
        (case mkdir E output of
           Some traceback \<Rightarrow> (1, print_err traceback w)
         | None \<Rightarrow>
             (let output_dir = path_str E output
              in case pipeline E pid output_dir (make_dir output_dir w) of
                   (Inl e, w1) \<Rightarrow> (1, print_err (''Error: '' @ err_str e) w1)
                 | (Inr u, w1) \<Rightarrow> (0, w1))))"

section \<open>Notions used in the properties\<close>

text \<open>The call of \<^verbatim>\<open>download_image\<close> that the loop makes for a pair: URL and destination.\<close>

definition call_of :: "env \<Rightarrow> string \<Rightarrow> json \<times> json \<Rightarrow> string \<times> string" where
  "call_of E output_dir c = (image_url_of E (fst c), output_path_of E output_dir (snd c))"

text \<open>A number as a decimal numeral, with zeros on the left up to four digits.\<close>

definition pad4 :: "nat \<Rightarrow> string" where
  "pad4 n = replicate (4 - length (str_nat n)) CHR ''0'' @ str_nat n"

text \<open>
  The three ways an item record can fail the extraction, each with its message: the
  \<open>relations\<close> field is missing or empty; \<open>relations\<close> is there and its
  \<open>hasPart\<close> field is missing or empty; \<open>hasPart\<close> is a list of child descriptors
  of which every one lacks a pid or a non-null order.
\<close>

datatype defect = NoRelations | NoChildren | NoValidChildren

fun defect_msg :: "defect \<Rightarrow> string" where
  "defect_msg NoRelations = ''No relations found in parent data.''"
| "defect_msg NoChildren = ''No child items found in parent data.''"
| "defect_msg NoValidChildren = ''No valid child PIDs found.''"

definition lacks :: "json \<Rightarrow> bool" where
  "lacks child =
     (case child of
        JObj kvs \<Rightarrow> \<not> truthy (get kvs ''pid'') \<or> get kvs ''order'' = JNull
      | _ \<Rightarrow> False)"

fun has_defect :: "defect \<Rightarrow> json \<Rightarrow> bool" where
  "has_defect NoRelations item =
     (case item of JObj kvs \<Rightarrow> \<not> truthy (get kvs ''relations'') | _ \<Rightarrow> False)"
| "has_defect NoChildren item =
     (case item of
        JObj kvs \<Rightarrow>
          (case get kvs ''relations'' of
             JObj rel \<Rightarrow> rel \<noteq> [] \<and> \<not> truthy (get rel ''hasPart'')
           | _ \<Rightarrow> False)
      | _ \<Rightarrow> False)"
| "has_defect NoValidChildren item =
     (case item of
        JObj kvs \<Rightarrow>
          (case get kvs ''relations'' of
             JObj rel \<Rightarrow>
               (case get rel ''hasPart'' of
                  JList children \<Rightarrow> children \<noteq> [] \<and> list_all lacks children
                | _ \<Rightarrow> False)
           | _ \<Rightarrow> False)
      | _ \<Rightarrow> False)"

text \<open>
  The lines the program prints to standard output: the count of the children found and
  the notice of a download skipped.
\<close>

definition is_notice :: "string \<Rightarrow> bool" where
  "is_notice l = ((\<exists>n. l = found_notice n) \<or> (\<exists>p. l = skip_notice p))"

text \<open>
  What a step added to the streams: notices on standard output, anything on standard
  error.
\<close>

definition adds :: "world \<Rightarrow> world \<Rightarrow> bool" where
  "adds w w' = (\<exists>ns es. stdout w' = stdout w @ ns \<and> list_all is_notice ns \<and> stderr w' = stderr w @ es)"

text \<open>
  A download that fails after the file was opened: the read of the body raises, or the
  write does; the result is the bytes that reached the file and the message of the error.
\<close>

definition fails_after_open :: "env \<Rightarrow> string \<Rightarrow> read_result \<Rightarrow> (string \<times> string) option" where
  "fails_after_open E p rd =
     (case rd of
        ReadRaises m \<Rightarrow> Some ([], m)
      | Body b \<Rightarrow> (case write_out E p b of Some (k, m) \<Rightarrow> Some (take k b, m) | None \<Rightarrow> None))"

subsection \<open>Concrete inputs\<close>

text \<open>
  An environment in which every file system call succeeds, every body decodes to the
  given item record, and the server answers as given; the world before anything ran.
\<close>

definition test_env :: "(nat \<Rightarrow> string \<Rightarrow> reply) \<Rightarrow> json \<Rightarrow> env" where
  "test_env answer item =
     \<lparr>net = answer, loads = (\<lambda>b. Json item), open_wb = (\<lambda>p. None), write_out = (\<lambda>p b. None),
      mkdir = (\<lambda>p. None), path_str = (\<lambda>p. p), repr_other = (\<lambda>v. ''?'')\<rparr>"

definition ok_answer :: "nat \<Rightarrow> string \<Rightarrow> reply" where
  "ok_answer n url = Response 200 ''OK'' (Body ''data'')"

definition empty_world :: world where
  "empty_world = \<lparr>fs = Map.empty, stdout = [], stderr = [], requests = [], invocations = []\<rparr>"

text \<open>The item record of the extraction example.\<close>

definition example_record :: json where
  "example_record =
     JObj [(''relations'', JObj [(''hasPart'', JList [
       JObj [(''pid'', JStr ''a:1''), (''order'', JInt 1)],
       JObj [(''pid'', JStr ''a:2''), (''order'', JNull)],
       JObj [(''pid'', JStr ''a:3''), (''order'', JInt 2)]])])]"


text \<open>Item records with one defect each.\<close>

definition no_relations_record :: json where
  "no_relations_record = JObj [(''relations'', JObj [])]"

definition no_children_record :: json where
  "no_children_record = JObj [(''relations'', JObj [(''hasPart'', JList [])])]"

definition no_valid_children_record :: json where
  "no_valid_children_record =
     JObj [(''relations'', JObj [(''hasPart'', JList [
       JObj [(''order'', JInt 1)],
       JObj [(''pid'', JStr ''a:2''), (''order'', JNull)]])])]"

text \<open>Child lists with the orders 1, 23 and 24.\<close>

definition two_children :: "(json \<times> json) list" where
  "two_children = [(JStr ''a:1'', JInt 1), (JStr ''a:2'', JInt 23)]"

definition three_children :: "(json \<times> json) list" where
  "three_children = [(JStr ''a:1'', JInt 1), (JStr ''a:2'', JInt 23), (JStr ''a:3'', JInt 24)]"

text \<open>Servers: one that answers 404, one that cannot be reached, one that fails at the second request.\<close>

definition not_found_answer :: "nat \<Rightarrow> string \<Rightarrow> reply" where
  "not_found_answer n url = Response 404 ''Not Found'' (Body [])"

definition unreachable_answer :: "nat \<Rightarrow> string \<Rightarrow> reply" where
  "unreachable_answer n url = Unreachable ''timed out''"

definition second_fails_answer :: "nat \<Rightarrow> string \<Rightarrow> reply" where
  "second_fails_answer n url = (if n = 1 then Unreachable ''timed out'' else Response 200 ''OK'' (Body ''data''))"

text \<open>An environment in which every write stops after two bytes.\<close>

definition disk_full_env :: env where
  "disk_full_env = (test_env ok_answer JNull)\<lparr>write_out := (\<lambda>p b. Some (2, ''No space left on device''))\<rparr>"

text \<open>
  The world after the first run on the example record into the directory \<open>out\<close>;
  a record with one child, and a world in which the file of page 1 is there already.
\<close>

definition after_first_run :: world where
  "after_first_run =
     \<lparr>fs = [''out'' \<mapsto> Dir, ''out/0001.jpg'' \<mapsto> File ''data'', ''out/0002.jpg'' \<mapsto> File ''data''],
      stdout = [''Found 2 child PIDs.''], stderr = [],
      requests = [''https://repository.library.brown.edu/api/items/x:1/'',
                  ''https://repository.library.brown.edu/iiif/image/a:1/full/!800,800/0/default.jpg'',
                  ''https://repository.library.brown.edu/iiif/image/a:3/full/!800,800/0/default.jpg''],
      invocations = [(''https://repository.library.brown.edu/iiif/image/a:1/full/!800,800/0/default.jpg'', ''out/0001.jpg''),
                     (''https://repository.library.brown.edu/iiif/image/a:3/full/!800,800/0/default.jpg'', ''out/0002.jpg'')]\<rparr>"

definition one_child_record :: json where
  "one_child_record =
     JObj [(''relations'', JObj [(''hasPart'', JList [JObj [(''pid'', JStr ''a:1''), (''order'', JInt 1)]])])]"

definition page_one_present :: world where
  "page_one_present =
     \<lparr>fs = [''out'' \<mapsto> Dir, ''out/0001.jpg'' \<mapsto> File ''data''],
      stdout = [], stderr = [], requests = [], invocations = []\<rparr>"

section \<open>Auxiliary facts\<close>

subsection \<open>The output streams and the requests\<close>

lemma print_out_fields [simp]:
  "fs (print_out s w) = fs w" "stdout (print_out s w) = stdout w @ [s]"
  "stderr (print_out s w) = stderr w" "requests (print_out s w) = requests w"
  "invocations (print_out s w) = invocations w"
  by (simp_all add: print_out_def)

lemma print_err_fields [simp]:
  "fs (print_err s w) = fs w" "stdout (print_err s w) = stdout w"
  "stderr (print_err s w) = stderr w @ [s]" "requests (print_err s w) = requests w"
  "invocations (print_err s w) = invocations w"
  by (simp_all add: print_err_def)

lemma test_env_fields [simp]:
  "net (test_env a i) = a" "loads (test_env a i) = (\<lambda>b. Json i)" "open_wb (test_env a i) = (\<lambda>p. None)"
  "write_out (test_env a i) = (\<lambda>p b. None)" "mkdir (test_env a i) = (\<lambda>p. None)"
  "path_str (test_env a i) = (\<lambda>p. p)" "repr_other (test_env a i) = (\<lambda>v. ''?'')"
  by (simp_all add: test_env_def)

lemma urlopen_world: "snd (urlopen E url w) = w\<lparr>requests := requests w @ [url]\<rparr>"
  by (simp add: urlopen_def Let_def split: reply.splits)

lemma urlopen_non_2xx:
  "net E (length (requests w)) url = Response code reason rd \<Longrightarrow> \<not> (200 \<le> code \<and> code < 300) \<Longrightarrow>
     urlopen E url w = (Inl (HTTPError code reason), w\<lparr>requests := requests w @ [url]\<rparr>)"
  by (simp add: urlopen_def Let_def)

lemma urlopen_2xx:
  "net E (length (requests w)) url = Response code reason rd \<Longrightarrow> 200 \<le> code \<Longrightarrow> code < 300 \<Longrightarrow>
     urlopen E url w = (Inr rd, w\<lparr>requests := requests w @ [url]\<rparr>)"
  by (simp add: urlopen_def Let_def)

subsection \<open>The fetch\<close>

lemma fetch_body_world: "snd (fetch_body E url w) = w\<lparr>requests := requests w @ [url]\<rparr>"
proof -
  obtain r w1 where u: "urlopen E url w = (r, w1)" by (cases "urlopen E url w")
  with urlopen_world [of E url w] have "w1 = w\<lparr>requests := requests w @ [url]\<rparr>" by simp
  with u show ?thesis
    by (simp add: fetch_body_def split: sum.splits read_result.splits decoded.splits)
qed

lemma fetch_handler_fields [simp]:
  "fs (fetch_handler e w) = fs w" "stdout (fetch_handler e w) = stdout w"
  "requests (fetch_handler e w) = requests w" "invocations (fetch_handler e w) = invocations w"
  by (cases e; simp)+

lemma fetch_parent_data_fields:
  "fs (snd (fetch_parent_data E pid w)) = fs w"
  "stdout (snd (fetch_parent_data E pid w)) = stdout w"
  "requests (snd (fetch_parent_data E pid w)) = requests w @ [api_url pid]"
  "invocations (snd (fetch_parent_data E pid w)) = invocations w"
proof -
  obtain r w1 where b: "fetch_body E (api_url pid) w = (r, w1)"
    by (cases "fetch_body E (api_url pid) w")
  with fetch_body_world [of E "api_url pid" w]
  have w1: "w1 = w\<lparr>requests := requests w @ [api_url pid]\<rparr>" by simp
  show "fs (snd (fetch_parent_data E pid w)) = fs w"
    "stdout (snd (fetch_parent_data E pid w)) = stdout w"
    "requests (snd (fetch_parent_data E pid w)) = requests w @ [api_url pid]"
    "invocations (snd (fetch_parent_data E pid w)) = invocations w"
    using b w1 by (simp_all add: fetch_parent_data_def split: sum.splits)
qed

subsection \<open>The extraction\<close>


lemma child_test_obj:
  "child_test (JObj kvs) = Inr (truthy (get kvs ''pid'') \<and> get kvs ''order'' \<noteq> JNull)"
  by (simp add: child_test_def)



lemma get_child_pids_error: "get_child_pids d w = (Inl e, w') \<Longrightarrow> w' = w"
  by (auto simp: get_child_pids_def split: sum.splits if_splits)

lemma get_child_pids_ok:
  "get_child_pids d w = (Inr cs, w') \<Longrightarrow> w' = print_out (found_notice (length cs)) w \<and> cs \<noteq> []"
  by (auto simp: get_child_pids_def split: sum.splits if_splits)

lemma comprehension_lacks: "list_all lacks cs \<Longrightarrow> comprehension cs = Inr []"
proof (induction cs)
  case Nil
  show ?case by simp
next
  case (Cons c cs)
  from Cons.prems obtain kvs where c: "c = JObj kvs"
    and l: "\<not> truthy (get kvs ''pid'') \<or> get kvs ''order'' = JNull"
    by (cases c) (simp_all add: lacks_def)
  from l have "child_test c = Inr False" unfolding c by (simp add: child_test_obj)
  with Cons show ?case by simp
qed

lemma get_child_pids_defect:
  "has_defect k item \<Longrightarrow> get_child_pids item w = (Inl (ValueError (defect_msg k)), w)"
proof (cases k)
  case NoRelations
  assume "has_defect k item"
  with NoRelations show ?thesis
    by (cases item) (simp_all add: get_child_pids_def)
next
  case NoChildren
  assume "has_defect k item"
  with NoChildren obtain kvs rel where "item = JObj kvs" "get kvs ''relations'' = JObj rel"
    "rel \<noteq> []" "\<not> truthy (get rel ''hasPart'')"
    by (auto split: json.splits)
  with NoChildren show ?thesis by (simp add: get_child_pids_def)
next
  case NoValidChildren
  assume "has_defect k item"
  with NoValidChildren obtain kvs rel cs where i: "item = JObj kvs"
    "get kvs ''relations'' = JObj rel" "get rel ''hasPart'' = JList cs" "cs \<noteq> []" "list_all lacks cs"
    by (auto split: json.splits)
  from i(3) have "rel \<noteq> []" by (auto simp: get_def)
  with i NoValidChildren comprehension_lacks [OF i(5)] show ?thesis
    by (simp add: get_child_pids_def)
qed

lemma defect_msg_inj: "defect_msg k = defect_msg k' \<Longrightarrow> k = k'"
  by (cases k; cases k'; simp)

subsection \<open>The downloader\<close>

lemma download_body_world:
  "\<exists>f. snd (download_body E u p w) = w\<lparr>fs := f, requests := requests w @ [u]\<rparr> \<and>
       (\<forall>q. q \<noteq> p \<longrightarrow> f q = fs w q)"
proof -
  obtain r w1 where o: "urlopen E u w = (r, w1)" by (cases "urlopen E u w")
  with urlopen_world [of E u w] have w1: "w1 = w\<lparr>requests := requests w @ [u]\<rparr>" by simp
  show ?thesis
  proof (cases r)
    case (Inl e)
    with o w1 have "snd (download_body E u p w) = w\<lparr>fs := fs w, requests := requests w @ [u]\<rparr>"
      by (simp add: download_body_def)
    then show ?thesis by blast
  next
    case (Inr rd)
    show ?thesis
    proof (cases "open_wb E p")
      case (Some m)
      with Inr o w1 have "snd (download_body E u p w) = w\<lparr>fs := fs w, requests := requests w @ [u]\<rparr>"
        by (simp add: download_body_def)
      then show ?thesis by blast
    next
      case None
      show ?thesis
      proof (cases rd)
        case (ReadRaises m)
        with None Inr o w1
        have "snd (download_body E u p w) = w\<lparr>fs := (fs w)(p \<mapsto> File []), requests := requests w @ [u]\<rparr>"
          by (simp add: download_body_def)
        then show ?thesis by (intro exI [of _ "(fs w)(p \<mapsto> File [])"]) simp
      next
        case (Body b)
        show ?thesis
        proof (cases "write_out E p b")
          case N: None
          with Body None Inr o w1
          have "snd (download_body E u p w) = w\<lparr>fs := (fs w)(p \<mapsto> File b), requests := requests w @ [u]\<rparr>"
            by (simp add: download_body_def)
          then show ?thesis by (intro exI [of _ "(fs w)(p \<mapsto> File b)"]) simp
        next
          case (Some km)
          obtain k m where km: "km = (k, m)" by (cases km)
          with Some Body None Inr o w1
          have "snd (download_body E u p w) = w\<lparr>fs := (fs w)(p \<mapsto> File (take k b)), requests := requests w @ [u]\<rparr>"
            by (simp add: download_body_def)
          then show ?thesis by (intro exI [of _ "(fs w)(p \<mapsto> File (take k b))"]) simp
        qed
      qed
    qed
  qed
qed

lemma download_image_new:
  assumes "fs w p = None"
  shows "\<exists>f. (\<forall>q. q \<noteq> p \<longrightarrow> f q = fs w q) \<and>
           (download_image E u p w =
              (Inr (), w\<lparr>fs := f, requests := requests w @ [u], invocations := invocations w @ [(u, p)]\<rparr>) \<or>
            (\<exists>e. download_image E u p w =
              (Inl e, w\<lparr>fs := f, stderr := stderr w @ [''Failed to download image from '' @ u @ '': '' @ err_str e],
                        requests := requests w @ [u], invocations := invocations w @ [(u, p)]\<rparr>)))"
proof -
  let ?w = "w\<lparr>invocations := invocations w @ [(u, p)]\<rparr>"
  obtain r w1 where b: "download_body E u p ?w = (r, w1)" by (cases "download_body E u p ?w")
  from download_body_world [of E u p ?w] b
  obtain f where f: "w1 = ?w\<lparr>fs := f, requests := requests ?w @ [u]\<rparr>" "\<forall>q. q \<noteq> p \<longrightarrow> f q = fs ?w q"
    by auto
  show ?thesis
  proof (cases r)
    case (Inl e)
    with b f(1) assms
    have "download_image E u p w =
      (Inl e, w\<lparr>fs := f, stderr := stderr w @ [''Failed to download image from '' @ u @ '': '' @ err_str e],
                        requests := requests w @ [u], invocations := invocations w @ [(u, p)]\<rparr>)"
      by (simp add: download_image_def Let_def print_err_def)
    with f(2) show ?thesis by (intro exI [of _ f]) auto
  next
    case (Inr x)
    with b f(1) assms
    have "download_image E u p w =
      (Inr (), w\<lparr>fs := f, requests := requests w @ [u], invocations := invocations w @ [(u, p)]\<rparr>)"
      by (simp add: download_image_def Let_def)
    with f(2) show ?thesis by (intro exI [of _ f]) auto
  qed
qed

lemma download_image_exists:
  "fs w p \<noteq> None \<Longrightarrow>
     download_image E u p w =
       (Inr (), w\<lparr>stdout := stdout w @ [skip_notice p], invocations := invocations w @ [(u, p)]\<rparr>)"
  by (auto simp: download_image_def Let_def print_out_def)

lemma download_image_invocations:
  "invocations (snd (download_image E u p w)) = invocations w @ [(u, p)]"
proof (cases "fs w p = None")
  case True
  from download_image_new [OF True, of E u] show ?thesis by auto
next
  case False
  then show ?thesis by (simp add: download_image_exists)
qed

lemma download_image_keeps:
  assumes "fs w q \<noteq> None"
  shows "fs (snd (download_image E u p w)) q = fs w q"
proof (cases "fs w p = None")
  case True
  with assms have "q \<noteq> p" by auto
  with download_image_new [OF True, of E u] show ?thesis by auto
next
  case False
  then show ?thesis by (simp add: download_image_exists)
qed

lemma download_image_stdout:
  "stdout (snd (download_image E u p w)) = stdout w \<or>
   stdout (snd (download_image E u p w)) = stdout w @ [skip_notice p]"
proof (cases "fs w p = None")
  case True
  from download_image_new [OF True, of E u] show ?thesis by auto
next
  case False
  then show ?thesis by (simp add: download_image_exists)
qed

lemma download_image_stderr:
  "download_image E u p w = (r, w') \<Longrightarrow>
     (case r of Inr x \<Rightarrow> stderr w' = stderr w
      | Inl e \<Rightarrow> stderr w' = stderr w @ [''Failed to download image from '' @ u @ '': '' @ err_str e])"
proof (cases "fs w p = None")
  case True
  assume "download_image E u p w = (r, w')"
  with download_image_new [OF True, of E u] show ?thesis by auto
next
  case False
  assume "download_image E u p w = (r, w')"
  with False show ?thesis by (auto simp: download_image_exists)
qed

subsection \<open>The loop\<close>

lemma loop_step:
  "download_images_for_children E (c # rest) d w =
     (case download_image E (fst (call_of E d c)) (snd (call_of E d c)) w of
        (Inl e, w1) \<Rightarrow>
          (Inl e, print_err (''Error processing PID '' @ py_str E (fst c) @ '': '' @ err_str e) w1)
      | (Inr u, w1) \<Rightarrow> download_images_for_children E rest d w1)"
  by (cases c) (simp add: call_of_def split: prod.splits sum.splits)

lemma loop_append:
  "download_images_for_children E (xs @ ys) d w =
     (case download_images_for_children E xs d w of
        (Inl e, w1) \<Rightarrow> (Inl e, w1)
      | (Inr u, w1) \<Rightarrow> download_images_for_children E ys d w1)"
proof (induction xs arbitrary: w)
  case Nil
  show ?case by simp
next
  case (Cons c xs)
  show ?case
    by (simp only: append_Cons loop_step) (simp add: Cons.IH split: prod.splits sum.splits)
qed

lemma loop_invocations_ok:
  "download_images_for_children E cs d w = (Inr (), w') \<Longrightarrow>
     invocations w' = invocations w @ map (call_of E d) cs"
proof (induction cs arbitrary: w)
  case Nil
  then show ?case by simp
next
  case (Cons c cs)
  obtain r w1 where di: "download_image E (fst (call_of E d c)) (snd (call_of E d c)) w = (r, w1)"
    by (cases "download_image E (fst (call_of E d c)) (snd (call_of E d c)) w")
  with download_image_invocations [of E "fst (call_of E d c)" "snd (call_of E d c)" w]
  have inv: "invocations w1 = invocations w @ [call_of E d c]" by simp
  from Cons.prems di obtain u where "r = Inr u" and rest: "download_images_for_children E cs d w1 = (Inr (), w')"
    by (cases r) (simp_all add: loop_step)
  from Cons.IH [OF rest] inv show ?case by simp
qed

lemma loop_invocations_take:
  "\<exists>k\<le>length cs. invocations (snd (download_images_for_children E cs d w)) =
     invocations w @ map (call_of E d) (take k cs)"
proof (induction cs arbitrary: w)
  case Nil
  then show ?case by simp
next
  case (Cons c cs)
  obtain r w1 where di: "download_image E (fst (call_of E d c)) (snd (call_of E d c)) w = (r, w1)"
    by (cases "download_image E (fst (call_of E d c)) (snd (call_of E d c)) w")
  with download_image_invocations [of E "fst (call_of E d c)" "snd (call_of E d c)" w]
  have inv: "invocations w1 = invocations w @ [call_of E d c]" by simp
  show ?case
  proof (cases r)
    case (Inl e)
    with di inv have "invocations (snd (download_images_for_children E (c # cs) d w)) =
        invocations w @ map (call_of E d) (take 1 (c # cs))"
      by (simp add: loop_step)
    then show ?thesis by (intro exI [of _ 1]) simp
  next
    case (Inr u)
    from Cons.IH [of w1] obtain k where k: "k \<le> length cs"
      "invocations (snd (download_images_for_children E cs d w1)) = invocations w1 @ map (call_of E d) (take k cs)"
      by blast
    with Inr di inv have "invocations (snd (download_images_for_children E (c # cs) d w)) =
        invocations w @ map (call_of E d) (take (Suc k) (c # cs))"
      by (simp add: loop_step)
    with k(1) show ?thesis by (intro exI [of _ "Suc k"]) simp
  qed
qed

lemma loop_keeps:
  "fs w q \<noteq> None \<Longrightarrow> fs (snd (download_images_for_children E cs d w)) q = fs w q"
proof (induction cs arbitrary: w)
  case Nil
  then show ?case by simp
next
  case (Cons c cs)
  obtain r w1 where di: "download_image E (fst (call_of E d c)) (snd (call_of E d c)) w = (r, w1)"
    by (cases "download_image E (fst (call_of E d c)) (snd (call_of E d c)) w")
  with download_image_keeps [OF Cons.prems, of E "fst (call_of E d c)" "snd (call_of E d c)"]
  have k: "fs w1 q = fs w q" by simp
  with Cons.prems have "fs w1 q \<noteq> None" by simp
  from Cons.IH [OF this] k di show ?case
    by (cases r) (simp_all add: loop_step)
qed

lemma loop_all_exist:
  "\<forall>c\<in>set cs. fs w (snd (call_of E d c)) \<noteq> None \<Longrightarrow>
     download_images_for_children E cs d w =
       (Inr (), w\<lparr>stdout := stdout w @ map (\<lambda>c. skip_notice (snd (call_of E d c))) cs,
                 invocations := invocations w @ map (call_of E d) cs\<rparr>)"
proof (induction cs arbitrary: w)
  case Nil
  then show ?case by simp
next
  case (Cons c cs)
  let ?w1 = "w\<lparr>stdout := stdout w @ [skip_notice (snd (call_of E d c))],
               invocations := invocations w @ [(fst (call_of E d c), snd (call_of E d c))]\<rparr>"
  from Cons.prems have "fs w (snd (call_of E d c)) \<noteq> None" by simp
  then have di: "download_image E (fst (call_of E d c)) (snd (call_of E d c)) w = (Inr (), ?w1)"
    by (rule download_image_exists)
  from Cons.prems have "\<forall>c'\<in>set cs. fs ?w1 (snd (call_of E d c')) \<noteq> None" by simp
  from Cons.IH [OF this] di show ?case by (simp add: loop_step)
qed

subsection \<open>File names\<close>

lemma replicate_numeral_Cons: "replicate (numeral k) x = x # replicate (pred_numeral k) x"
  by (simp add: numeral_eq_Suc)

lemma digit_char_digit: "d < 10 \<Longrightarrow> digit_char d \<in> set ''0123456789''"
  unfolding digit_char_def by (rule nth_mem) simp

lemma str_nat_digits: "set (str_nat n) \<subseteq> set ''0123456789''"
proof (induction n rule: str_nat.induct)
  case (1 n)
  show ?case
  proof (cases "n < 10")
    case True
    then show ?thesis using digit_char_digit [of n] by (subst str_nat.simps) simp
  next
    case False
    have "n mod 10 < 10" by simp
    from digit_char_digit [OF this] "1" [OF False] False show ?thesis
      by (subst str_nat.simps) simp
  qed
qed

lemma str_nat_nonempty: "str_nat n \<noteq> []"
  by (subst str_nat.simps) simp

lemma zfill_str_nat: "zfill 4 (str_nat n) = pad4 n"
proof (cases "str_nat n")
  case Nil
  with str_nat_nonempty show ?thesis by simp
next
  case (Cons c rest)
  with str_nat_digits [of n] have "c \<in> set ''0123456789''" by auto
  then have "c \<noteq> CHR ''+''" "c \<noteq> CHR ''-''" by auto
  with Cons show ?thesis by (simp add: zfill_def pad4_def Let_def)
qed

lemma output_path_nonneg:
  "0 \<le> n \<Longrightarrow> output_path_of E d (JInt n) = d @ ''/'' @ pad4 (nat n) @ ''.jpg''"
  by (simp add: output_path_of_def str_int_def zfill_str_nat)

subsection \<open>The HTTP error of the fetch\<close>

lemma fetch_parent_data_http_error:
  assumes "net E (length (requests w)) (api_url pid) = Response code reason rd"
      and "\<not> (200 \<le> code \<and> code < 300)"
  shows "fetch_parent_data E pid w =
           (Inl (HTTPError code reason),
            w\<lparr>stderr := stderr w @ [''HTTP Error '' @ str_nat code @ '': '' @ reason],
              requests := requests w @ [api_url pid]\<rparr>)"
  using urlopen_non_2xx [OF assms]
  by (simp add: fetch_parent_data_def fetch_body_def print_err_def)

subsection \<open>The output directory\<close>

lemma make_dir_fields [simp]:
  "stdout (make_dir d w) = stdout w" "stderr (make_dir d w) = stderr w"
  "requests (make_dir d w) = requests w" "invocations (make_dir d w) = invocations w"
  by (simp_all add: make_dir_def)

lemma make_dir_keeps: "fs w q \<noteq> None \<Longrightarrow> fs (make_dir d w) q = fs w q"
  by (auto simp: make_dir_def)

lemma make_dir_exists: "fs (make_dir d w) d \<noteq> None"
  by (simp add: make_dir_def)

lemma make_dir_idle: "fs w d \<noteq> None \<Longrightarrow> make_dir d w = w"
  by (auto simp: make_dir_def)

subsection \<open>Files after a download\<close>

lemma download_body_ok: "download_body E u p w = (Inr x, w') \<Longrightarrow> fs w' p \<noteq> None"
  unfolding download_body_def Let_def
  by (cases "urlopen E u w") (auto split: sum.splits option.splits read_result.splits prod.splits)

lemma download_image_ok_exists: "download_image E u p w = (Inr x, w') \<Longrightarrow> fs w' p \<noteq> None"
proof (cases "fs w p = None")
  case False
  assume "download_image E u p w = (Inr x, w')"
  with False show ?thesis by (auto simp: download_image_exists)
next
  case True
  let ?w = "w\<lparr>invocations := invocations w @ [(u, p)]\<rparr>"
  assume d: "download_image E u p w = (Inr x, w')"
  obtain r w1 where b: "download_body E u p ?w = (r, w1)" by (cases "download_body E u p ?w")
  with d True have "r = Inr ()" "w1 = w'"
    by (auto simp: download_image_def Let_def split: sum.splits)
  with b download_body_ok [of E u p ?w "()" w'] show ?thesis by simp
qed

lemma loop_ok_exist:
  "download_images_for_children E cs d w = (Inr (), w') \<Longrightarrow> c \<in> set cs \<Longrightarrow>
     fs w' (snd (call_of E d c)) \<noteq> None"
proof (induction cs arbitrary: w)
  case Nil
  then show ?case by simp
next
  case (Cons c0 cs)
  obtain r w1 where di: "download_image E (fst (call_of E d c0)) (snd (call_of E d c0)) w = (r, w1)"
    by (cases "download_image E (fst (call_of E d c0)) (snd (call_of E d c0)) w")
  from Cons.prems(1) di obtain u where r: "r = Inr u"
    and rest: "download_images_for_children E cs d w1 = (Inr (), w')"
    by (cases r) (simp_all add: loop_step)
  show ?case
  proof (cases "c \<in> set cs")
    case True
    with Cons.IH [OF rest] show ?thesis by simp
  next
    case False
    with Cons.prems(2) have c: "c = c0" by simp
    from di r have e: "fs w1 (snd (call_of E d c0)) \<noteq> None"
      by (auto dest: download_image_ok_exists)
    from loop_keeps [OF e, of E cs d] rest e c show ?thesis by simp
  qed
qed

subsection \<open>What is added to the streams\<close>

lemma adds_refl: "adds w w"
  by (simp add: adds_def)

lemma adds_trans: "adds w w' \<Longrightarrow> adds w' w'' \<Longrightarrow> adds w w''"
  by (fastforce simp: adds_def)

lemma adds_same: "stdout w' = stdout w \<Longrightarrow> stderr w' = stderr w \<Longrightarrow> adds w w'"
  by (simp add: adds_def)

lemma adds_print_err: "adds w (print_err s w)"
  by (simp add: adds_def)

lemma adds_found: "adds w (print_out (found_notice n) w)"
  unfolding adds_def by (rule exI [of _ "[found_notice n]"]) (auto simp: is_notice_def)

lemma adds_skip: "adds w (print_out (skip_notice p) w)"
  unfolding adds_def by (rule exI [of _ "[skip_notice p]"]) (auto simp: is_notice_def)

lemma fetch_handler_adds: "adds w (fetch_handler e w)"
  by (cases e) (simp_all add: adds_print_err adds_refl)

lemma fetch_parent_data_adds: "adds w (snd (fetch_parent_data E pid w))"
proof -
  obtain r w1 where b: "fetch_body E (api_url pid) w = (r, w1)"
    by (cases "fetch_body E (api_url pid) w")
  with fetch_body_world [of E "api_url pid" w]
  have w1: "w1 = w\<lparr>requests := requests w @ [api_url pid]\<rparr>" by simp
  then have a: "adds w w1" by (simp add: adds_same)
  show ?thesis
  proof (cases r)
    case (Inl e)
    with b have "snd (fetch_parent_data E pid w) = fetch_handler e w1"
      by (simp add: fetch_parent_data_def)
    with a fetch_handler_adds [of w1 e] show ?thesis by (auto intro: adds_trans)
  next
    case (Inr x)
    with b a show ?thesis by (simp add: fetch_parent_data_def)
  qed
qed

lemma get_child_pids_adds: "adds w (snd (get_child_pids item w))"
proof (cases "get_child_pids item w")
  case (Pair r w')
  show ?thesis
  proof (cases r)
    case (Inl e)
    with Pair get_child_pids_error [of item w e w'] show ?thesis by (simp add: adds_refl)
  next
    case (Inr cs)
    with Pair get_child_pids_ok [of item w cs w'] show ?thesis by (simp add: adds_found)
  qed
qed

lemma download_image_adds: "adds w (snd (download_image E u p w))"
proof (cases "download_image E u p w")
  case (Pair r w')
  from download_image_stdout [of E u p w] Pair
  have o: "stdout w' = stdout w \<or> stdout w' = stdout w @ [skip_notice p]" by simp
  from download_image_stderr [OF Pair] have "\<exists>es. stderr w' = stderr w @ es"
    by (cases r) simp_all
  then obtain es where es: "stderr w' = stderr w @ es" ..
  from o show ?thesis
  proof
    assume "stdout w' = stdout w"
    with es Pair show ?thesis unfolding adds_def by (intro exI [of _ "[]"] exI [of _ es]) simp
  next
    assume "stdout w' = stdout w @ [skip_notice p]"
    with es Pair show ?thesis unfolding adds_def
      by (intro exI [of _ "[skip_notice p]"] exI [of _ es]) (auto simp: is_notice_def)
  qed
qed

lemma loop_adds: "adds w (snd (download_images_for_children E cs d w))"
proof (induction cs arbitrary: w)
  case Nil
  show ?case by (simp add: adds_refl)
next
  case (Cons c cs)
  obtain r w1 where di: "download_image E (fst (call_of E d c)) (snd (call_of E d c)) w = (r, w1)"
    by (cases "download_image E (fst (call_of E d c)) (snd (call_of E d c)) w")
  with download_image_adds [of w E "fst (call_of E d c)" "snd (call_of E d c)"]
  have a: "adds w w1" by simp
  show ?case
  proof (cases r)
    case (Inl e)
    with di have "snd (download_images_for_children E (c # cs) d w) =
        print_err (''Error processing PID '' @ py_str E (fst c) @ '': '' @ err_str e) w1"
      by (simp add: loop_step)
    with a adds_print_err [of w1] show ?thesis by (auto intro: adds_trans)
  next
    case (Inr x)
    with di have "snd (download_images_for_children E (c # cs) d w) =
        snd (download_images_for_children E cs d w1)"
      by (simp add: loop_step)
    with a Cons.IH [of w1] show ?thesis by (auto intro: adds_trans)
  qed
qed

lemma pipeline_adds: "adds w (snd (pipeline E pid d w))"
proof -
  obtain r w1 where f: "fetch_parent_data E pid w = (r, w1)" by (cases "fetch_parent_data E pid w")
  with fetch_parent_data_adds [of w E pid] have a1: "adds w w1" by simp
  show ?thesis
  proof (cases r)
    case (Inl e)
    with f a1 show ?thesis by (simp add: pipeline_def)
  next
    case (Inr item)
    obtain r2 w2 where g: "get_child_pids item w1 = (r2, w2)" by (cases "get_child_pids item w1")
    with get_child_pids_adds [of w1 item] have a2: "adds w1 w2" by simp
    show ?thesis
    proof (cases r2)
      case (Inl e)
      with Inr f g a1 a2 show ?thesis by (auto simp: pipeline_def intro: adds_trans)
    next
      case (Inr cs)
      with \<open>r = Inr item\<close> f g
      have "snd (pipeline E pid d w) = snd (download_images_for_children E cs d w2)"
        by (simp add: pipeline_def)
      with a1 a2 loop_adds [of w2 E cs d] show ?thesis by (auto intro: adds_trans)
    qed
  qed
qed

lemma main_adds: "adds w (snd (main E pid output w))"
proof (cases "strip pid = []")
  case True
  then show ?thesis by (simp add: main_def adds_print_err)
next
  case False
  show ?thesis
  proof (cases "mkdir E output")
    case (Some tb)
    with False show ?thesis by (simp add: main_def adds_print_err)
  next
    case None
    let ?d = "path_str E output"
    have a0: "adds w (make_dir ?d w)" by (simp add: adds_same)
    obtain r w1 where p: "pipeline E pid ?d (make_dir ?d w) = (r, w1)"
      by (cases "pipeline E pid ?d (make_dir ?d w)")
    with pipeline_adds [of "make_dir ?d w" E pid ?d] have a1: "adds (make_dir ?d w) w1" by simp
    show ?thesis
    proof (cases r)
      case (Inl e)
      with None False p have "snd (main E pid output w) = print_err (''Error: '' @ err_str e) w1"
        by (simp add: main_def Let_def)
      with a0 a1 adds_print_err [of w1] show ?thesis by (auto intro: adds_trans)
    next
      case (Inr x)
      with None False p have "snd (main E pid output w) = w1"
        by (simp add: main_def Let_def)
      with a0 a1 show ?thesis by (auto intro: adds_trans)
    qed
  qed
qed

lemma main_failure:
  assumes "fst (main E pid output w) \<noteq> 0"
  shows "\<exists>s w1. adds w w1 \<and> snd (main E pid output w) = print_err s w1"
proof (cases "strip pid = []")
  case True
  then have "snd (main E pid output w) = print_err ''Error: PID cannot be empty.'' w"
    by (simp add: main_def)
  with adds_refl [of w] show ?thesis by blast
next
  case False
  show ?thesis
  proof (cases "mkdir E output")
    case (Some tb)
    with False have "snd (main E pid output w) = print_err tb w" by (simp add: main_def)
    with adds_refl [of w] show ?thesis by blast
  next
    case None
    let ?d = "path_str E output"
    have a0: "adds w (make_dir ?d w)" by (simp add: adds_same)
    obtain r w1 where p: "pipeline E pid ?d (make_dir ?d w) = (r, w1)"
      by (cases "pipeline E pid ?d (make_dir ?d w)")
    with pipeline_adds [of "make_dir ?d w" E pid ?d] have "adds (make_dir ?d w) w1" by simp
    with a0 have a1: "adds w w1" by (rule adds_trans)
    show ?thesis
    proof (cases r)
      case (Inl e)
      with None False p have "snd (main E pid output w) = print_err (''Error: '' @ err_str e) w1"
        by (simp add: main_def Let_def)
      with a1 show ?thesis by blast
    next
      case (Inr x)
      with None False p have "fst (main E pid output w) = 0" by (simp add: main_def Let_def)
      with assms show ?thesis by simp
    qed
  qed
qed

subsection \<open>Unfolding a run on a concrete input\<close>

lemmas run_defs =
  download_image_def download_body_def urlopen_def image_url_of_def output_path_of_def
  str_int_def zfill_def str_nat.simps digit_char_def replicate_numeral_Cons empty_world_def
  print_err_def print_out_def skip_notice_def

lemmas main_defs =
  main_def pipeline_def fetch_parent_data_def fetch_body_def get_child_pids_def make_dir_def
  api_url_def found_notice_def child_test_def child_pair_def get_def strip_def is_space_def

section \<open>Properties\<close>

subsection \<open>Extraction\<close>

text \<open>
  C7. On the record with children (a:1, 1), (a:2, null), (a:3, 2) the extraction returns
  the list [(a:1, 1), (a:3, 2)], in that order and without the entry whose order is
  null, and prints the notice with the count 2 to standard output.
\<close>

theorem extraction_example:
  "get_child_pids example_record w =
     (Inr [(JStr ''a:1'', JInt 1), (JStr ''a:3'', JInt 2)], print_out ''Found 2 child PIDs.'' w)"
  by (simp add: example_record_def get_child_pids_def get_def child_test_def child_pair_def
      found_notice_def str_nat.simps digit_char_def)



text \<open>
  C2. An item record whose \<open>relations\<close> field is missing or empty, or whose
  \<open>relations.hasPart\<close> field is missing or empty, or whose \<open>hasPart\<close> entries all
  lack a pid or a non-null order, makes the extraction raise a \<^verbatim>\<open>ValueError\<close> with the
  message of that case, and the three messages differ. When \<^verbatim>\<open>main\<close> fetched such a
  record it exits with code 1 after printing the message to standard error, having made
  the metadata request only and no call of the downloader.
\<close>

theorem extraction_defects:
  assumes "has_defect k item"
  shows "get_child_pids item w = (Inl (ValueError (defect_msg k)), w) \<and>
         (strip pid \<noteq> [] \<and> mkdir E output = None \<and>
          fetch_parent_data E pid (make_dir (path_str E output) wa) = (Inr item, wb) \<longrightarrow>
            main E pid output wa = (1, print_err (''Error: '' @ defect_msg k) wb) \<and>
            invocations wb = invocations wa \<and>
            requests wb = requests wa @ [api_url pid]) \<and>
         (defect_msg k' = defect_msg k \<longrightarrow> k' = k)"
proof (intro conjI impI)
  show "get_child_pids item w = (Inl (ValueError (defect_msg k)), w)"
    using assms by (rule get_child_pids_defect)
next
  assume "defect_msg k' = defect_msg k"
  then show "k' = k" by (rule defect_msg_inj)
next
  assume h: "strip pid \<noteq> [] \<and> mkdir E output = None \<and>
          fetch_parent_data E pid (make_dir (path_str E output) wa) = (Inr item, wb)"
  let ?w = "make_dir (path_str E output) wa"
  have g: "get_child_pids item wb = (Inl (ValueError (defect_msg k)), wb)"
    using assms by (rule get_child_pids_defect)
  from h g have "pipeline E pid (path_str E output) ?w = (Inl (ValueError (defect_msg k)), wb)"
    by (simp add: pipeline_def)
  with h show "main E pid output wa = (1, print_err (''Error: '' @ defect_msg k) wb)"
    by (simp add: main_def)
  have m: "invocations ?w = invocations wa" "requests ?w = requests wa"
    by (simp_all add: make_dir_def)
  from h fetch_parent_data_fields(3,4) [of E pid ?w] m
  show "invocations wb = invocations wa" "requests wb = requests wa @ [api_url pid]"
    by simp_all
qed

theorem extraction_defects_witness:
  "has_defect NoRelations no_relations_record \<and>
   get_child_pids no_relations_record empty_world =
     (Inl (ValueError ''No relations found in parent data.''), empty_world) \<and>
   has_defect NoValidChildren no_valid_children_record \<and>
   get_child_pids no_valid_children_record empty_world =
     (Inl (ValueError ''No valid child PIDs found.''), empty_world) \<and>
   has_defect NoChildren no_children_record \<and>
   get_child_pids no_children_record empty_world =
     (Inl (ValueError ''No child items found in parent data.''), empty_world) \<and>
   main (test_env ok_answer no_children_record) ''x:1'' ''out'' empty_world =
     (1, \<lparr>fs = [''out'' \<mapsto> Dir], stdout = [],
          stderr = [''Error: No child items found in parent data.''],
          requests = [''https://repository.library.brown.edu/api/items/x:1/''],
          invocations = []\<rparr>)"
proof -
  let ?E = "test_env ok_answer no_children_record"
  let ?w1 = "\<lparr>fs = [''out'' \<mapsto> Dir], stdout = [], stderr = [],
          requests = [''https://repository.library.brown.edu/api/items/x:1/''],
          invocations = []\<rparr>"
  have r: "has_defect NoRelations no_relations_record"
    by (simp add: no_relations_record_def get_def)
  have v: "has_defect NoValidChildren no_valid_children_record"
    by (simp add: no_valid_children_record_def get_def lacks_def)
  have d: "has_defect NoChildren no_children_record"
    by (simp add: no_children_record_def get_def)
  have s: "strip ''x:1'' \<noteq> []" by (simp add: strip_def is_space_def)
  have f: "fetch_parent_data ?E ''x:1'' (make_dir (path_str ?E ''out'') empty_world) =
      (Inr no_children_record, ?w1)"
    by (simp add: fetch_parent_data_def fetch_body_def urlopen_def ok_answer_def make_dir_def
        empty_world_def api_url_def)
  from extraction_defects [OF d, where pid = "''x:1''" and E = ?E and ?output = "''out''"
      and wa = empty_world and wb = ?w1 and w = empty_world and k' = NoChildren]
    extraction_defects [OF r, where w = empty_world]
    extraction_defects [OF v, where w = empty_world]
    s f d r v
  show ?thesis by (simp add: print_err_def)
qed

subsection \<open>The command line\<close>

text \<open>
  C6. When the pid argument is empty, or white space only, \<^verbatim>\<open>main\<close> exits with code
  1; all it does is print the line "Error: PID cannot be empty." to standard error: no
  request is made and the downloader is not called.
\<close>

theorem main_empty_pid:
  "strip pid = [] \<Longrightarrow>
     main E pid output w = (1, w\<lparr>stderr := stderr w @ [''Error: PID cannot be empty.'']\<rparr>) \<and>
     requests (snd (main E pid output w)) = requests w \<and>
     invocations (snd (main E pid output w)) = invocations w"
  by (simp add: main_def print_err_def)

theorem main_empty_pid_witness:
  "strip [] = [] \<and> strip [CHR '' '', CHR 0x09, CHR '' ''] = [] \<and>
   main (test_env ok_answer example_record) [] ''out'' empty_world =
     (1, \<lparr>fs = Map.empty, stdout = [], stderr = [''Error: PID cannot be empty.''],
          requests = [], invocations = []\<rparr>) \<and>
   main (test_env ok_answer example_record) [CHR '' '', CHR 0x09, CHR '' ''] ''out'' empty_world =
     (1, \<lparr>fs = Map.empty, stdout = [], stderr = [''Error: PID cannot be empty.''],
          requests = [], invocations = []\<rparr>)"
proof -
  have a: "strip [] = []" by (simp add: strip_def)
  have b: "strip [CHR '' '', CHR 0x09, CHR '' ''] = []" by (simp add: strip_def is_space_def)
  from main_empty_pid [OF a, of "test_env ok_answer example_record" "''out''" empty_world]
    main_empty_pid [OF b, of "test_env ok_answer example_record" "''out''" empty_world] a b
  show ?thesis by (simp add: empty_world_def)
qed

subsection \<open>The fetch\<close>

text \<open>
  C5. When the answer to the metadata request has a status outside 200..299, the fetch
  raises the \<^verbatim>\<open>HTTPError\<close> with the status code and the reason of the answer, after
  printing "HTTP Error code: reason" to standard error, and \<^verbatim>\<open>main\<close> exits with code
  1, its own report following on standard error; so it is for the answer 404.
\<close>

theorem metadata_http_error:
  assumes "net E (length (requests w)) (api_url pid) = Response code reason rd"
      and "\<not> (200 \<le> code \<and> code < 300)"
  shows "fetch_parent_data E pid w =
           (Inl (HTTPError code reason),
            w\<lparr>stderr := stderr w @ [''HTTP Error '' @ str_nat code @ '': '' @ reason],
              requests := requests w @ [api_url pid]\<rparr>) \<and>
         fst (main E pid output w) = 1 \<and>
         (strip pid \<noteq> [] \<and> mkdir E output = None \<longrightarrow>
            main E pid output w =
              (1, (make_dir (path_str E output) w)
                    \<lparr>stderr := stderr w @ [''HTTP Error '' @ str_nat code @ '': '' @ reason,
                                          ''Error: HTTP Error '' @ str_nat code @ '': '' @ reason],
                     requests := requests w @ [api_url pid]\<rparr>))"
proof -
  let ?w = "make_dir (path_str E output) w"
  let ?l = "''HTTP Error '' @ str_nat code @ '': '' @ reason"
  from assms(1) have n: "net E (length (requests ?w)) (api_url pid) = Response code reason rd"
    by simp
  have f: "fetch_parent_data E pid ?w =
      (Inl (HTTPError code reason), ?w\<lparr>stderr := stderr ?w @ [?l], requests := requests ?w @ [api_url pid]\<rparr>)"
    using n assms(2) by (rule fetch_parent_data_http_error)
  then have p: "pipeline E pid (path_str E output) ?w =
      (Inl (HTTPError code reason), ?w\<lparr>stderr := stderr w @ [?l], requests := requests w @ [api_url pid]\<rparr>)"
    by (simp add: pipeline_def)
  have m: "strip pid \<noteq> [] \<and> mkdir E output = None \<longrightarrow>
            main E pid output w =
              (1, ?w\<lparr>stderr := stderr w @ [?l, ''Error: '' @ ?l], requests := requests w @ [api_url pid]\<rparr>)"
    using p by (simp add: main_def print_err_def)
  have c: "fst (main E pid output w) = 1"
  proof (cases "strip pid = []")
    case True
    then show ?thesis by (simp add: main_def)
  next
    case False
    show ?thesis
    proof (cases "mkdir E output")
      case None
      with False m show ?thesis by simp
    next
      case (Some tb)
      with False show ?thesis by (simp add: main_def)
    qed
  qed
  from fetch_parent_data_http_error [OF assms] m c show ?thesis by simp
qed

theorem metadata_http_error_witness:
  "fetch_parent_data (test_env not_found_answer JNull) ''x:1'' empty_world =
     (Inl (HTTPError 404 ''Not Found''),
      \<lparr>fs = Map.empty, stdout = [], stderr = [''HTTP Error 404: Not Found''],
       requests = [''https://repository.library.brown.edu/api/items/x:1/''], invocations = []\<rparr>) \<and>
   main (test_env not_found_answer JNull) ''x:1'' ''out'' empty_world =
     (1, \<lparr>fs = [''out'' \<mapsto> Dir], stdout = [],
          stderr = [''HTTP Error 404: Not Found'', ''Error: HTTP Error 404: Not Found''],
          requests = [''https://repository.library.brown.edu/api/items/x:1/''], invocations = []\<rparr>)"
proof -
  let ?E = "test_env not_found_answer JNull"
  have n: "net ?E (length (requests empty_world)) (api_url ''x:1'') = Response 404 ''Not Found'' (Body [])"
    by (simp add: not_found_answer_def)
  have c: "\<not> (200 \<le> (404::nat) \<and> (404::nat) < 300)" by simp
  have s: "strip ''x:1'' \<noteq> []" by (simp add: strip_def is_space_def)
  have k: "str_nat 404 = ''404''" by (simp add: str_nat.simps digit_char_def)
  from metadata_http_error [OF n c, where ?output = "''out''"] s k
  show ?thesis by (simp add: empty_world_def api_url_def make_dir_def)
qed

subsection \<open>The download loop\<close>

text \<open>
  C1, as amended. The loop calls the downloader once for each pair, in order, when no
  download fails: then the calls made are those of the pairs, so their number is the
  number of pairs. In general the number of calls is at most the number of pairs, the
  loop ending at the first failure. The destination of a pair is the output directory,
  a slash, \<^verbatim>\<open>str(order).zfill(4)\<close> and \<^verbatim>\<open>.jpg\<close>; for an integer order that is
  not negative, that is its decimal numeral with zeros on the left up to four digits.
  The orders 1 and 23 give \<^verbatim>\<open>0001.jpg\<close> and \<^verbatim>\<open>0023.jpg\<close>.
\<close>

theorem invocations_and_file_names:
  "(download_images_for_children E cs d w = (Inr (), w') \<longrightarrow>
      invocations w' = invocations w @ map (call_of E d) cs) \<and>
   length (invocations (snd (download_images_for_children E cs d w))) \<le> length (invocations w) + length cs \<and>
   snd (call_of E d (pid, page)) = d @ ''/'' @ zfill 4 (py_str E page) @ ''.jpg'' \<and>
   (0 \<le> n \<longrightarrow> snd (call_of E d (pid, JInt n)) = d @ ''/'' @ pad4 (nat n) @ ''.jpg'') \<and>
   snd (call_of E d (pid, JInt 1)) = d @ ''/0001.jpg'' \<and>
   snd (call_of E d (pid, JInt 23)) = d @ ''/0023.jpg''"
proof (intro conjI impI)
  assume "download_images_for_children E cs d w = (Inr (), w')"
  then show "invocations w' = invocations w @ map (call_of E d) cs" by (rule loop_invocations_ok)
next
  from loop_invocations_take [of cs E d w]
  show "length (invocations (snd (download_images_for_children E cs d w))) \<le> length (invocations w) + length cs"
    by auto
next
  show "snd (call_of E d (pid, page)) = d @ ''/'' @ zfill 4 (py_str E page) @ ''.jpg''"
    by (simp add: call_of_def output_path_of_def)
next
  assume "0 \<le> n"
  then show "snd (call_of E d (pid, JInt n)) = d @ ''/'' @ pad4 (nat n) @ ''.jpg''"
    by (simp add: call_of_def output_path_nonneg)
next
  show "snd (call_of E d (pid, JInt 1)) = d @ ''/0001.jpg''"
    by (simp add: call_of_def output_path_of_def str_int_def zfill_def str_nat.simps digit_char_def
        replicate_numeral_Cons)
next
  show "snd (call_of E d (pid, JInt 23)) = d @ ''/0023.jpg''"
    by (simp add: call_of_def output_path_of_def str_int_def zfill_def str_nat.simps digit_char_def
        replicate_numeral_Cons)
qed

theorem invocations_and_file_names_witness:
  "fst (download_images_for_children (test_env ok_answer JNull) two_children ''out'' empty_world) = Inr () \<and>
   invocations (snd (download_images_for_children (test_env ok_answer JNull) two_children ''out'' empty_world)) =
     [(''https://repository.library.brown.edu/iiif/image/a:1/full/!800,800/0/default.jpg'', ''out/0001.jpg''),
      (''https://repository.library.brown.edu/iiif/image/a:2/full/!800,800/0/default.jpg'', ''out/0023.jpg'')] \<and>
   (0::int) \<le> 7 \<and> snd (call_of (test_env ok_answer JNull) ''out'' (JStr ''a:9'', JInt 7)) = ''out/0007.jpg''"
proof -
  let ?E = "test_env ok_answer JNull"
  let ?r = "download_images_for_children ?E two_children ''out'' empty_world"
  have ok: "fst ?r = Inr ()"
    by (simp add: two_children_def run_defs ok_answer_def)
  then have h: "?r = (Inr (), snd ?r)" by (metis prod.collapse)
  have p: "pad4 (nat 7) = ''0007''"
    by (simp add: pad4_def str_nat.simps digit_char_def replicate_numeral_Cons)
  have c: "map (call_of ?E ''out'') two_children =
     [(''https://repository.library.brown.edu/iiif/image/a:1/full/!800,800/0/default.jpg'', ''out/0001.jpg''),
      (''https://repository.library.brown.edu/iiif/image/a:2/full/!800,800/0/default.jpg'', ''out/0023.jpg'')]"
    by (simp add: two_children_def call_of_def run_defs)
  note t = invocations_and_file_names [where E = ?E and cs = two_children and d = "''out''"
      and w = empty_world and w' = "snd ?r" and n = 7 and pid = "JStr ''a:9''" and page = "JInt 7"]
  from t h have i: "invocations (snd ?r) = invocations empty_world @ map (call_of ?E ''out'') two_children"
    by blast
  from t [THEN conjunct2, THEN conjunct2, THEN conjunct2, THEN conjunct1]
  have f: "snd (call_of ?E ''out'' (JStr ''a:9'', JInt 7)) = ''out'' @ ''/'' @ pad4 (nat 7) @ ''.jpg''"
    by simp
  from i c ok f p show ?thesis by (simp add: empty_world_def)
qed

text \<open>
  C1 as stated, with the number of calls equal to the number of pairs on every valid
  child list, fails when a download fails: of two children the second is never tried
  when the server cannot be reached for the first.
\<close>

theorem invocation_count_counterexample:
  "length (invocations (snd (download_images_for_children (test_env unreachable_answer JNull)
      two_children ''out'' empty_world))) = 1 \<and> length two_children = 2"
  by (simp add: two_children_def run_defs unreachable_answer_def)

text \<open>
  C4. When the downloads of the pairs before a position succeeded and the download of
  the pair at the position fails, the loop prints "Error processing PID pid: error" for
  that pair to standard error, after the report of the downloader, and raises the same
  error; the downloader was called for the pairs up to the position and for no pair after
  it, whatever follows in the list.
\<close>

theorem abort_on_first_failure:
  assumes "download_images_for_children E pre d w = (Inr (), wa)"
      and "download_image E (image_url_of E pid) (output_path_of E d page) wa = (Inl e, wb)"
  shows "download_images_for_children E (pre @ (pid, page) # post) d w =
           (Inl e, print_err (''Error processing PID '' @ py_str E pid @ '': '' @ err_str e) wb) \<and>
         invocations (snd (download_images_for_children E (pre @ (pid, page) # post) d w)) =
           invocations w @ map (call_of E d) (pre @ [(pid, page)])"
proof -
  from assms have "download_images_for_children E (pre @ (pid, page) # post) d w =
           (Inl e, print_err (''Error processing PID '' @ py_str E pid @ '': '' @ err_str e) wb)"
    by (simp add: loop_append)
  moreover from loop_invocations_ok [OF assms(1)]
    download_image_invocations [of E "image_url_of E pid" "output_path_of E d page" wa] assms(2)
  have "invocations wb = invocations w @ map (call_of E d) (pre @ [(pid, page)])"
    by (simp add: call_of_def)
  ultimately show ?thesis by simp
qed

theorem abort_on_first_failure_witness:
  "download_images_for_children (test_env second_fails_answer JNull) three_children ''out'' empty_world =
     (Inl (URLError ''timed out''),
      \<lparr>fs = [''out/0001.jpg'' \<mapsto> File ''data''], stdout = [],
       stderr = [''Failed to download image from https://repository.library.brown.edu/iiif/image/a:2/full/!800,800/0/default.jpg: <urlopen error timed out>'',
                 ''Error processing PID a:2: <urlopen error timed out>''],
       requests = [''https://repository.library.brown.edu/iiif/image/a:1/full/!800,800/0/default.jpg'',
                   ''https://repository.library.brown.edu/iiif/image/a:2/full/!800,800/0/default.jpg''],
       invocations = [(''https://repository.library.brown.edu/iiif/image/a:1/full/!800,800/0/default.jpg'', ''out/0001.jpg''),
                      (''https://repository.library.brown.edu/iiif/image/a:2/full/!800,800/0/default.jpg'', ''out/0023.jpg'')]\<rparr>)"
proof -
  let ?E = "test_env second_fails_answer JNull"
  let ?wa = "\<lparr>fs = [''out/0001.jpg'' \<mapsto> File ''data''], stdout = [], stderr = [],
       requests = [''https://repository.library.brown.edu/iiif/image/a:1/full/!800,800/0/default.jpg''],
       invocations = [(''https://repository.library.brown.edu/iiif/image/a:1/full/!800,800/0/default.jpg'', ''out/0001.jpg'')]\<rparr>"
  let ?wb = "\<lparr>fs = [''out/0001.jpg'' \<mapsto> File ''data''], stdout = [],
       stderr = [''Failed to download image from https://repository.library.brown.edu/iiif/image/a:2/full/!800,800/0/default.jpg: <urlopen error timed out>''],
       requests = [''https://repository.library.brown.edu/iiif/image/a:1/full/!800,800/0/default.jpg'',
                   ''https://repository.library.brown.edu/iiif/image/a:2/full/!800,800/0/default.jpg''],
       invocations = [(''https://repository.library.brown.edu/iiif/image/a:1/full/!800,800/0/default.jpg'', ''out/0001.jpg''),
                      (''https://repository.library.brown.edu/iiif/image/a:2/full/!800,800/0/default.jpg'', ''out/0023.jpg'')]\<rparr>"
  have a: "download_images_for_children ?E [(JStr ''a:1'', JInt 1)] ''out'' empty_world = (Inr (), ?wa)"
    by (simp add: run_defs second_fails_answer_def)
  have b: "download_image ?E (image_url_of ?E (JStr ''a:2'')) (output_path_of ?E ''out'' (JInt 23)) ?wa =
      (Inl (URLError ''timed out''), ?wb)"
    by (simp add: run_defs second_fails_answer_def)
  from abort_on_first_failure [OF a b, of "[(JStr ''a:3'', JInt 24)]"]
  show ?thesis by (simp add: three_children_def print_err_def)
qed

subsection \<open>The downloader\<close>

text \<open>
  C3. A download to a destination that exists succeeds at once: it prints the notice
  to standard output and changes nothing else, so that no request is made and no file
  changes. In the loop, a pair whose destination existed when the loop started is
  skipped in this way when its turn comes. And a second run of \<^verbatim>\<open>main\<close> after a
  successful one, on the same child list and the same output directory, exits with
  code 0 having made the metadata request and no other, and leaves every file as it
  was.
\<close>

theorem existing_destination_skipped:
  "(fs w p \<noteq> None \<longrightarrow>
      download_image E u p w =
        (Inr (), w\<lparr>stdout := stdout w @ [skip_notice p], invocations := invocations w @ [(u, p)]\<rparr>)) \<and>
   (download_images_for_children E pre d w = (Inr (), wa) \<and> fs w (output_path_of E d page) \<noteq> None \<longrightarrow>
      download_images_for_children E (pre @ [(pid, page)]) d w =
        (Inr (), wa\<lparr>stdout := stdout wa @ [skip_notice (output_path_of E d page)],
                   invocations := invocations wa @ [call_of E d (pid, page)]\<rparr>)) \<and>
   (strip pid' \<noteq> [] \<and> mkdir E output = None \<and>
    fetch_parent_data E pid' (make_dir (path_str E output) ws) = (Inr item, wb) \<and>
    get_child_pids item wb = (Inr cs, wc) \<and>
    download_images_for_children E cs (path_str E output) wc = (Inr (), wd) \<and>
    fetch_parent_data E pid' (make_dir (path_str E output) wd) = (Inr item', we) \<and>
    get_child_pids item' we = (Inr cs, wg) \<longrightarrow>
      main E pid' output ws = (0, wd) \<and>
      fst (main E pid' output wd) = 0 \<and>
      requests (snd (main E pid' output wd)) = requests wd @ [api_url pid'] \<and>
      fs (snd (main E pid' output wd)) = fs wd)"
proof (intro conjI impI)
  assume "fs w p \<noteq> None"
  then show "download_image E u p w =
        (Inr (), w\<lparr>stdout := stdout w @ [skip_notice p], invocations := invocations w @ [(u, p)]\<rparr>)"
    by (rule download_image_exists)
next
  assume h: "download_images_for_children E pre d w = (Inr (), wa) \<and> fs w (output_path_of E d page) \<noteq> None"
  then have "fs w (output_path_of E d page) \<noteq> None" by simp
  from loop_keeps [OF this, of E pre d] h have "fs wa (output_path_of E d page) \<noteq> None" by simp
  from download_image_exists [OF this, of E "image_url_of E pid"] h
  show "download_images_for_children E (pre @ [(pid, page)]) d w =
        (Inr (), wa\<lparr>stdout := stdout wa @ [skip_notice (output_path_of E d page)],
                   invocations := invocations wa @ [call_of E d (pid, page)]\<rparr>)"
    by (simp add: loop_append call_of_def)
next
  let ?d = "path_str E output"
  assume h: "strip pid' \<noteq> [] \<and> mkdir E output = None \<and>
    fetch_parent_data E pid' (make_dir ?d ws) = (Inr item, wb) \<and>
    get_child_pids item wb = (Inr cs, wc) \<and>
    download_images_for_children E cs ?d wc = (Inr (), wd) \<and>
    fetch_parent_data E pid' (make_dir ?d wd) = (Inr item', we) \<and>
    get_child_pids item' we = (Inr cs, wg)"
  then have s: "strip pid' \<noteq> []" and m: "mkdir E output = None"
    and f1: "fetch_parent_data E pid' (make_dir ?d ws) = (Inr item, wb)"
    and g1: "get_child_pids item wb = (Inr cs, wc)"
    and l1: "download_images_for_children E cs ?d wc = (Inr (), wd)"
    and f2: "fetch_parent_data E pid' (make_dir ?d wd) = (Inr item', we)"
    and g2: "get_child_pids item' we = (Inr cs, wg)"
    by simp_all
  from f1 g1 l1 have p1: "pipeline E pid' ?d (make_dir ?d ws) = (Inr (), wd)"
    by (simp add: pipeline_def)
  with s m show run1: "main E pid' output ws = (0, wd)" by (simp add: main_def Let_def)
  \<comment> \<open>the output directory is still there\<close>
  from fetch_parent_data_fields(1) [of E pid' "make_dir ?d ws"] f1
  have "fs wb = fs (make_dir ?d ws)" by simp
  moreover from get_child_pids_ok [OF g1] have "fs wc = fs wb" by simp
  ultimately have "fs wc ?d \<noteq> None" by (simp add: make_dir_exists)
  from loop_keeps [OF this, of E cs ?d] l1 this have "fs wd ?d \<noteq> None" by simp
  then have idle: "make_dir ?d wd = wd" by (rule make_dir_idle)
  \<comment> \<open>every destination is there\<close>
  from fetch_parent_data_fields(1,3) [of E pid' wd] f2 idle
  have we: "fs we = fs wd" "requests we = requests wd @ [api_url pid']" by simp_all
  from get_child_pids_ok [OF g2] we
  have wg: "fs wg = fs wd" "requests wg = requests wd @ [api_url pid']" by simp_all
  have "\<forall>c\<in>set cs. fs wg (snd (call_of E ?d c)) \<noteq> None"
    using loop_ok_exist [OF l1] wg(1) by simp
  from loop_all_exist [OF this]
  have l2: "download_images_for_children E cs ?d wg =
      (Inr (), wg\<lparr>stdout := stdout wg @ map (\<lambda>c. skip_notice (snd (call_of E ?d c))) cs,
                 invocations := invocations wg @ map (call_of E ?d) cs\<rparr>)" .
  with f2 g2 idle have p2: "pipeline E pid' ?d (make_dir ?d wd) =
      (Inr (), wg\<lparr>stdout := stdout wg @ map (\<lambda>c. skip_notice (snd (call_of E ?d c))) cs,
                 invocations := invocations wg @ map (call_of E ?d) cs\<rparr>)"
    by (simp add: pipeline_def)
  with s m have run2: "main E pid' output wd =
      (0, wg\<lparr>stdout := stdout wg @ map (\<lambda>c. skip_notice (snd (call_of E ?d c))) cs,
                 invocations := invocations wg @ map (call_of E ?d) cs\<rparr>)"
    by (simp add: main_def Let_def)
  from run2 show "fst (main E pid' output wd) = 0" by simp
  from run2 wg show "requests (snd (main E pid' output wd)) = requests wd @ [api_url pid']" by simp
  from run2 wg show "fs (snd (main E pid' output wd)) = fs wd" by simp
qed

theorem existing_destination_skipped_witness:
  "main (test_env ok_answer example_record) ''x:1'' ''out'' empty_world = (0, after_first_run) \<and>
   fst (main (test_env ok_answer example_record) ''x:1'' ''out'' after_first_run) = 0 \<and>
   requests (snd (main (test_env ok_answer example_record) ''x:1'' ''out'' after_first_run)) =
     [''https://repository.library.brown.edu/api/items/x:1/'',
      ''https://repository.library.brown.edu/iiif/image/a:1/full/!800,800/0/default.jpg'',
      ''https://repository.library.brown.edu/iiif/image/a:3/full/!800,800/0/default.jpg'',
      ''https://repository.library.brown.edu/api/items/x:1/''] \<and>
   download_image (test_env ok_answer example_record) ''u'' ''out/0001.jpg'' after_first_run =
     (Inr (), after_first_run\<lparr>stdout := [''Found 2 child PIDs.'',
                 ''Image already exists at out/0001.jpg, skipping download.''],
               invocations := invocations after_first_run @ [(''u'', ''out/0001.jpg'')]\<rparr>) \<and>
   requests (snd (download_images_for_children (test_env ok_answer example_record)
       [(JStr ''a:1'', JInt 1)] ''out'' after_first_run)) = requests after_first_run"
proof -
  let ?E = "test_env ok_answer example_record"
  let ?cs = "[(JStr ''a:1'', JInt 1), (JStr ''a:3'', JInt 2)]"
  let ?wb = "\<lparr>fs = [''out'' \<mapsto> Dir], stdout = [], stderr = [],
      requests = [''https://repository.library.brown.edu/api/items/x:1/''], invocations = []\<rparr>"
  let ?wc = "\<lparr>fs = [''out'' \<mapsto> Dir], stdout = [''Found 2 child PIDs.''], stderr = [],
      requests = [''https://repository.library.brown.edu/api/items/x:1/''], invocations = []\<rparr>"
  let ?we = "after_first_run\<lparr>requests := requests after_first_run @ [''https://repository.library.brown.edu/api/items/x:1/'']\<rparr>"
  let ?wg = "?we\<lparr>stdout := stdout ?we @ [''Found 2 child PIDs.'']\<rparr>"
  have s: "strip ''x:1'' \<noteq> []" by (simp add: strip_def is_space_def)
  have f1: "fetch_parent_data ?E ''x:1'' (make_dir (path_str ?E ''out'') empty_world) = (Inr example_record, ?wb)"
    by (simp add: fetch_parent_data_def fetch_body_def urlopen_def ok_answer_def make_dir_def
        empty_world_def api_url_def)
  have g1: "get_child_pids example_record ?wb = (Inr ?cs, ?wc)"
    by (simp add: example_record_def get_child_pids_def get_def child_test_def child_pair_def
      found_notice_def str_nat.simps digit_char_def print_out_def)
  have l1: "download_images_for_children ?E ?cs (path_str ?E ''out'') ?wc = (Inr (), after_first_run)"
    by (simp add: run_defs ok_answer_def after_first_run_def)
  have f2: "fetch_parent_data ?E ''x:1'' (make_dir (path_str ?E ''out'') after_first_run) = (Inr example_record, ?we)"
    by (simp add: fetch_parent_data_def fetch_body_def urlopen_def ok_answer_def make_dir_def
        after_first_run_def api_url_def)
  have g2: "get_child_pids example_record ?we = (Inr ?cs, ?wg)"
    by (simp add: example_record_def get_child_pids_def get_def child_test_def child_pair_def
      found_notice_def str_nat.simps digit_char_def print_out_def)
  have e: "fs after_first_run ''out/0001.jpg'' \<noteq> None" by (simp add: after_first_run_def)
  note t = existing_destination_skipped [where E = ?E and pid' = "''x:1''" and ?output = "''out''"
      and ws = empty_world and item = example_record and wb = ?wb and cs = ?cs and wc = ?wc
      and wd = after_first_run and item' = example_record and we = ?we and wg = ?wg
      and w = after_first_run and p = "''out/0001.jpg''" and u = "''u''"]
  from t [THEN conjunct2, THEN conjunct2] s f1 g1 l1 f2 g2
  have r: "main ?E ''x:1'' ''out'' empty_world = (0, after_first_run) \<and>
      fst (main ?E ''x:1'' ''out'' after_first_run) = 0 \<and>
      requests (snd (main ?E ''x:1'' ''out'' after_first_run)) = requests after_first_run @ [api_url ''x:1'']"
    by simp
  from t [THEN conjunct1] e
  have d: "download_image ?E ''u'' ''out/0001.jpg'' after_first_run =
     (Inr (), after_first_run\<lparr>stdout := stdout after_first_run @ [skip_notice ''out/0001.jpg''],
               invocations := invocations after_first_run @ [(''u'', ''out/0001.jpg'')]\<rparr>)"
    by simp
  have e': "fs after_first_run (output_path_of ?E ''out'' (JInt 1)) \<noteq> None"
    by (simp add: after_first_run_def run_defs)
  from existing_destination_skipped [where E = ?E and pre = "[]" and d = "''out''"
      and w = after_first_run and wa = after_first_run and page = "JInt 1" and pid = "JStr ''a:1''",
      THEN conjunct2, THEN conjunct1] e'
  have l: "requests (snd (download_images_for_children ?E [(JStr ''a:1'', JInt 1)] ''out'' after_first_run)) =
      requests after_first_run"
    by simp
  from r d l show ?thesis by (simp add: after_first_run_def api_url_def skip_notice_def)
qed

text \<open>
  C8. When a download fails after the destination was opened for writing (the read of
  the body raises, or the write does), the downloader prints its report to standard
  error and raises the error; the file stays at the destination with the bytes that
  reached it. A later download to the same destination, for any URL and whatever the
  server would answer, finds the file, prints the notice of a skipped download and
  succeeds without a request.
\<close>

theorem failed_write_leaves_file:
  assumes "fs w p = None"
      and "net E (length (requests w)) u = Response code reason rd"
      and "200 \<le> code" and "code < 300"
      and "open_wb E p = None"
      and "fails_after_open E p rd = Some (written, m)"
  shows "download_image E u p w =
           (Inl (OSError m),
            w\<lparr>fs := (fs w)(p \<mapsto> File written),
              stderr := stderr w @ [''Failed to download image from '' @ u @ '': '' @ m],
              requests := requests w @ [u],
              invocations := invocations w @ [(u, p)]\<rparr>) \<and>
         download_image E' u' p (snd (download_image E u p w)) =
           (Inr (), (snd (download_image E u p w))
              \<lparr>stdout := stdout w @ [skip_notice p],
               invocations := invocations w @ [(u, p), (u', p)]\<rparr>)"
proof -
  let ?w = "w\<lparr>invocations := invocations w @ [(u, p)]\<rparr>"
  let ?w' = "w\<lparr>fs := (fs w)(p \<mapsto> File written),
              stderr := stderr w @ [''Failed to download image from '' @ u @ '': '' @ m],
              requests := requests w @ [u],
              invocations := invocations w @ [(u, p)]\<rparr>"
  from assms(2) have "net E (length (requests ?w)) u = Response code reason rd" by simp
  from urlopen_2xx [OF this assms(3,4)]
  have o: "urlopen E u ?w = (Inr rd, ?w\<lparr>requests := requests w @ [u]\<rparr>)" by simp
  have b: "download_body E u p ?w =
      (Inl (OSError m), ?w\<lparr>fs := (fs w)(p \<mapsto> File written), requests := requests w @ [u]\<rparr>)"
  proof (cases rd)
    case (ReadRaises m')
    with assms(6) have "m' = m" "written = []" by (simp_all add: fails_after_open_def)
    with ReadRaises o assms(5) show ?thesis by (simp add: download_body_def)
  next
    case (Body bs)
    with assms(6) obtain k where "write_out E p bs = Some (k, m)" "written = take k bs"
      by (auto simp: fails_after_open_def split: option.splits)
    with Body o assms(5) show ?thesis by (simp add: download_body_def)
  qed
  with assms(1) have d: "download_image E u p w = (Inl (OSError m), ?w')"
    by (simp add: download_image_def Let_def print_err_def)
  have "fs ?w' p \<noteq> None" by simp
  from download_image_exists [OF this, of E' u'] d
  show ?thesis by simp
qed

theorem failed_write_leaves_file_witness:
  "download_image disk_full_env ''u'' ''out/0001.jpg'' empty_world =
     (Inl (OSError ''No space left on device''),
      \<lparr>fs = [''out/0001.jpg'' \<mapsto> File ''da''], stdout = [],
       stderr = [''Failed to download image from u: No space left on device''],
       requests = [''u''], invocations = [(''u'', ''out/0001.jpg'')]\<rparr>) \<and>
   download_image (test_env ok_answer JNull) ''u''  ''out/0001.jpg''
       (snd (download_image disk_full_env ''u'' ''out/0001.jpg'' empty_world)) =
     (Inr (),
      \<lparr>fs = [''out/0001.jpg'' \<mapsto> File ''da''],
       stdout = [''Image already exists at out/0001.jpg, skipping download.''],
       stderr = [''Failed to download image from u: No space left on device''],
       requests = [''u''], invocations = [(''u'', ''out/0001.jpg''), (''u'', ''out/0001.jpg'')]\<rparr>)"
proof -
  have a: "fs empty_world ''out/0001.jpg'' = None" by (simp add: empty_world_def)
  have n: "net disk_full_env (length (requests empty_world)) ''u'' = Response 200 ''OK'' (Body ''data'')"
    by (simp add: disk_full_env_def ok_answer_def)
  have c: "(200::nat) \<le> 200" "(200::nat) < 300" by simp_all
  have op: "open_wb disk_full_env ''out/0001.jpg'' = None" by (simp add: disk_full_env_def)
  have f: "fails_after_open disk_full_env ''out/0001.jpg'' (Body ''data'') =
      Some (''da'', ''No space left on device'')"
    by (simp add: fails_after_open_def disk_full_env_def)
  note t = failed_write_leaves_file [OF a n c op f, of "test_env ok_answer JNull" "''u''"]
  from t [THEN conjunct1] have d: "download_image disk_full_env ''u'' ''out/0001.jpg'' empty_world =
     (Inl (OSError ''No space left on device''),
      \<lparr>fs = [''out/0001.jpg'' \<mapsto> File ''da''], stdout = [],
       stderr = [''Failed to download image from u: No space left on device''],
       requests = [''u''], invocations = [(''u'', ''out/0001.jpg'')]\<rparr>)"
    by (simp add: empty_world_def)
  from t [THEN conjunct2] d show ?thesis by (simp add: skip_notice_def empty_world_def)
qed

subsection \<open>The output streams\<close>

text \<open>
  C9, as amended. In every run of \<^verbatim>\<open>main\<close>, the lines the program prints to standard
  output are notices only: "Found N child PIDs." and "Image already exists at path,
  skipping download."; what was on the streams before stays, and a run that exits with
  a code other than 0 has printed to standard error. The progress indicator is drawn by
  the \<^verbatim>\<open>tqdm\<close> library, not by a \<^verbatim>\<open>print\<close> of the program, and is not
  part of the streams here.
\<close>

theorem output_streams:
  "take (length (stdout w)) (stdout (snd (main E pid output w))) = stdout w \<and>
   list_all is_notice (drop (length (stdout w)) (stdout (snd (main E pid output w)))) \<and>
   take (length (stderr w)) (stderr (snd (main E pid output w))) = stderr w \<and>
   (fst (main E pid output w) \<noteq> 0 \<longrightarrow>
      length (stderr w) < length (stderr (snd (main E pid output w))))"
proof -
  from main_adds [of w E pid "output"] obtain ns es
    where o: "stdout (snd (main E pid output w)) = stdout w @ ns" and n: "list_all is_notice ns"
      and e: "stderr (snd (main E pid output w)) = stderr w @ es"
    unfolding adds_def by blast
  have "fst (main E pid output w) \<noteq> 0 \<longrightarrow>
      length (stderr w) < length (stderr (snd (main E pid output w)))"
  proof
    assume "fst (main E pid output w) \<noteq> 0"
    from main_failure [OF this] obtain s w1 where "adds w w1"
      and "snd (main E pid output w) = print_err s w1" by blast
    then show "length (stderr w) < length (stderr (snd (main E pid output w)))"
      by (auto simp: adds_def)
  qed
  with o n e show ?thesis by simp
qed

theorem output_streams_witness:
  "list_all is_notice [''Found 1 child PIDs.'', ''Image already exists at out/0001.jpg, skipping download.''] \<and>
   fst (main (test_env not_found_answer JNull) ''x:1'' ''out'' empty_world) \<noteq> 0 \<and>
   length (stderr empty_world) <
     length (stderr (snd (main (test_env not_found_answer JNull) ''x:1'' ''out'' empty_world)))"
proof -
  have s: "stdout (snd (main (test_env ok_answer one_child_record) ''x:1'' ''out'' page_one_present)) =
     [''Found 1 child PIDs.'', ''Image already exists at out/0001.jpg, skipping download.'']"
    by (simp add: main_defs run_defs one_child_record_def page_one_present_def ok_answer_def)
  have p: "stdout page_one_present = []" by (simp add: page_one_present_def)
  have f: "fst (main (test_env not_found_answer JNull) ''x:1'' ''out'' empty_world) \<noteq> 0"
    by (simp add: main_defs run_defs not_found_answer_def)
  from output_streams [of page_one_present "test_env ok_answer one_child_record" "''x:1''" "''out''"]
    output_streams [of empty_world "test_env not_found_answer JNull" "''x:1''" "''out''"] s p f
  show ?thesis by simp
qed

text \<open>
  C9 as stated, with the count of the children as the only notice on standard output,
  fails on a run that finds the file of a page in place: the notice of the skipped
  download goes to standard output too.
\<close>

theorem stdout_skip_notice_counterexample:
  "stdout (snd (main (test_env ok_answer one_child_record) ''x:1'' ''out'' page_one_present)) =
     [''Found 1 child PIDs.'', ''Image already exists at out/0001.jpg, skipping download.'']"
  by (simp add: main_defs run_defs one_child_record_def page_one_present_def ok_answer_def)

end
